theory Spec2Isabelle
  imports
    Complex_Main
    "HOL-Library.AList"
    "HOL-Library.Char_ord"
    "HOL-Library.List_Lexorder"
    "HOL-Library.Log_Nat"
    "HOL-Library.Product_Lexorder"
    "HOL-Library.Multiset"
    "HOL-Library.Sublist"
begin

section \<open>Values and the Python operations the viewer uses\<close>

text \<open>
  The viewer (\<^verbatim>\<open>wz_icon_viewer_gui.py\<close>) works on whatever \<^verbatim>\<open>json.load\<close> returns.
  A parsed document is a value of the type \<open>json\<close> below. A Python \<^verbatim>\<open>dict\<close> keeps
  its keys in insertion order, and the id list of the viewer is built from that order,
  so a dict is an association list; a dict that Python can hold has pairwise different
  keys (\<open>wf_dict\<close>). The keys of a parsed JSON object are always \<^verbatim>\<open>str\<close>.

  A \<open>char\<close> is one code point below 256, and strings are compared code point by code
  point, as Python compares \<^verbatim>\<open>str\<close>. Text with code points from 256 on is outside
  the model. A float is kept as mantissa and exponent; no function of the viewer reads it.
\<close>

datatype json =
    JNull
  | JBool bool
  | JInt int
  | JFloat int int
  | JStr string
  | JList "json list"
  | JDict "(string \<times> json) list"

type_synonym dict = "(string \<times> json) list"

datatype py_error =
  TypeError | KeyError | AttributeError | ValueError | OSError | OverflowError

definition wf_dict :: "(string \<times> 'v) list \<Rightarrow> bool" where
  "wf_dict d = distinct (map fst d)"

text \<open>The values that Python can hold: every dict inside, at any depth, has distinct keys.\<close>

fun wf_json :: "json \<Rightarrow> bool" where
  "wf_json (JDict d) = (wf_dict d \<and> list_all wf_json (map snd d))"
| "wf_json (JList xs) = list_all wf_json xs"
| "wf_json v = True"

text \<open>\<^verbatim>\<open>isinstance(x, dict)\<close>\<close>

fun isinstance_dict :: "json \<Rightarrow> bool" where
  "isinstance_dict (JDict d) = True"
| "isinstance_dict v = False"

text \<open>\<^verbatim>\<open>str(k)\<close> of a key that is a \<^verbatim>\<open>str\<close> already gives the key back.\<close>

definition str_key :: "string \<Rightarrow> string" where
  "str_key k = k"

text \<open>
  \<^verbatim>\<open>k in x\<close> for a string \<open>k\<close>: a key test on a dict, an element test on a list, a
  substring test on a string, and a \<^verbatim>\<open>TypeError\<close> on every value that is not a container.
\<close>

fun py_contains :: "string \<Rightarrow> json \<Rightarrow> py_error + bool" where
  "py_contains k (JDict d) = Inr (k \<in> set (map fst d))"
| "py_contains k (JList xs) = Inr (JStr k \<in> set xs)"
| "py_contains k (JStr s) = Inr (sublist k s)"
| "py_contains k v = Inl TypeError"

text \<open>
  \<^verbatim>\<open>x[k]\<close> for a string \<open>k\<close>: the value stored in a dict (\<^verbatim>\<open>KeyError\<close> when the key is
  missing), and a \<^verbatim>\<open>TypeError\<close> on everything else (lists and strings take integer
  indices, the other values take none).
\<close>

fun py_getitem :: "json \<Rightarrow> string \<Rightarrow> py_error + json" where
  "py_getitem (JDict d) k = (case map_of d k of None \<Rightarrow> Inl KeyError | Some v \<Rightarrow> Inr v)"
| "py_getitem v k = Inl TypeError"

text \<open>\<^verbatim>\<open>x.get(k, default)\<close>: only a dict has the method.\<close>

fun py_get :: "json \<Rightarrow> string \<Rightarrow> json \<Rightarrow> py_error + json" where
  "py_get (JDict d) k dflt = Inr (case map_of d k of None \<Rightarrow> dflt | Some v \<Rightarrow> v)"
| "py_get v k dflt = Inl AttributeError"

text \<open>
  The comprehension \<^verbatim>\<open>{str(k): v for k, v in d.items()}\<close>: the items are stored one
  after the other; storing under a key that is there already replaces the value in
  place, storing under a new key appends.
\<close>

definition dict_str_keys :: "dict \<Rightarrow> dict" where
  "dict_str_keys d = foldl (\<lambda>acc (k, v). AList.update (str_key k) v acc) [] d"

section \<open>Core logic helpers\<close>

text \<open>
  \<^verbatim>\<open>load_icon_db(path)\<close>. Opening and parsing the file is the work of \<^verbatim>\<open>open\<close> and
  \<^verbatim>\<open>json.load\<close>; their outcome is the argument: \<open>Inl e\<close> when one of them raised \<open>e\<close>,
  \<open>Inr data\<close> when the document parsed to \<open>data\<close>.
\<close>

definition load_icon_db :: "py_error + json \<Rightarrow> py_error + json" where
  "load_icon_db parsed =
     (case parsed of
        Inl e \<Rightarrow> Inl e
      | Inr data \<Rightarrow> if \<not> isinstance_dict data then Inl ValueError else Inr data)"

definition get_types :: "json \<Rightarrow> string list" where
  "get_types icon_db =
     (case icon_db of
        JDict d \<Rightarrow> sort (map str_key (map fst d))
      | _ \<Rightarrow> [])"

definition is_nested_item :: "json \<Rightarrow> string \<Rightarrow> py_error + bool" where
  "is_nested_item icon_db type_name =
     (case py_contains type_name icon_db of
        Inl e \<Rightarrow> Inl e
      | Inr False \<Rightarrow> Inr False
      | Inr True \<Rightarrow>
          (case py_getitem icon_db type_name of
             Inl e \<Rightarrow> Inl e
           | Inr data \<Rightarrow>
               (case data of
                  JDict d \<Rightarrow> Inr (list_ex isinstance_dict (map snd d))
                | _ \<Rightarrow> Inr False)))"

definition get_categories :: "json \<Rightarrow> string \<Rightarrow> py_error + string list" where
  "get_categories icon_db type_name =
     (case is_nested_item icon_db type_name of
        Inl e \<Rightarrow> Inl e
      | Inr False \<Rightarrow> Inr []
      | Inr True \<Rightarrow>
          (case py_get icon_db type_name (JDict []) of
             Inl e \<Rightarrow> Inl e
           | Inr data \<Rightarrow>
               (case data of
                  JDict d \<Rightarrow> Inr (sort (map str_key (map fst d)))
                | _ \<Rightarrow> Inl AttributeError)))"

text \<open>
  \<^verbatim>\<open>get_ids(icon_db, type_name, category=None)\<close>. The category is \<open>None\<close> or a string;
  \<^verbatim>\<open>not category\<close> holds for \<open>None\<close> and for the empty string. The test
  \<^verbatim>\<open>type_name == "Item" and _is_nested_item(icon_db, "Item")\<close> calls the helper only
  for the type \<^verbatim>\<open>Item\<close>.
\<close>

definition get_ids :: "json \<Rightarrow> string \<Rightarrow> string option \<Rightarrow> py_error + dict" where
  "get_ids icon_db type_name category =
     (case py_contains type_name icon_db of
        Inl e \<Rightarrow> Inl e
      | Inr False \<Rightarrow> Inr []
      | Inr True \<Rightarrow>
          (case py_getitem icon_db type_name of
             Inl e \<Rightarrow> Inl e
           | Inr data \<Rightarrow>
               (case (if type_name = ''Item'' then is_nested_item icon_db ''Item''
                      else Inr False) of
                  Inl e \<Rightarrow> Inl e
                | Inr True \<Rightarrow>
                    (case category of
                       None \<Rightarrow> Inr []
                     | Some c \<Rightarrow>
                         if c = [] then Inr []
                         else
                           (case py_get data c JNull of
                              Inl e \<Rightarrow> Inl e
                            | Inr sub \<Rightarrow>
                                (case sub of
                                   JDict s \<Rightarrow> Inr (dict_str_keys s)
                                 | _ \<Rightarrow> Inr [])))
                | Inr False \<Rightarrow>
                    (case data of
                       JDict d \<Rightarrow> Inr (dict_str_keys d)
                     | _ \<Rightarrow> Inr []))))"

section \<open>The id list and the preview of the window\<close>

subsection \<open>Character classes of \<^verbatim>\<open>str\<close>\<close>

text \<open>
  \<^verbatim>\<open>str.isdigit\<close> accepts, below 256, the decimal digits \<^verbatim>\<open>0\<close> to \<^verbatim>\<open>9\<close> and the
  superscript digits U+00B2, U+00B3 and U+00B9, and is false on the empty string.
  \<^verbatim>\<open>int(s)\<close> reads decimal digits only and raises \<^verbatim>\<open>ValueError\<close> on a superscript
  digit. \<open>py_int_digits\<close> is \<^verbatim>\<open>int(s)\<close> on the strings the viewer passes to it, those
  with \<^verbatim>\<open>s.isdigit()\<close>: no sign, blank or underscore occurs in them. \<^verbatim>\<open>int\<close> also
  raises \<^verbatim>\<open>ValueError\<close> on a string of more digits than
  \<^verbatim>\<open>sys.get_int_max_str_digits()\<close>, leading zeros counted; the viewer leaves the limit
  at its default of 4300.
  \<^verbatim>\<open>str.strip()\<close> removes the white space of \<^verbatim>\<open>str.isspace\<close> from both ends.
\<close>

definition isdecimal_char :: "char \<Rightarrow> bool" where
  "isdecimal_char c = (48 \<le> (of_char c :: nat) \<and> (of_char c :: nat) \<le> 57)"

definition isdigit_char :: "char \<Rightarrow> bool" where
  "isdigit_char c =
     (isdecimal_char c \<or> (of_char c :: nat) = 178 \<or> (of_char c :: nat) = 179
        \<or> (of_char c :: nat) = 185)"

definition str_isdigit :: "string \<Rightarrow> bool" where
  "str_isdigit s = (s \<noteq> [] \<and> list_all isdigit_char s)"

definition digit_value :: "char \<Rightarrow> int" where
  "digit_value c = int (of_char c) - 48"

definition decimal_value :: "string \<Rightarrow> int" where
  "decimal_value s = foldl (\<lambda>n c. 10 * n + digit_value c) 0 s"

definition int_max_str_digits :: nat where
  "int_max_str_digits = 4300"

definition py_int_digits :: "string \<Rightarrow> py_error + int" where
  "py_int_digits s =
     (if s \<noteq> [] \<and> list_all isdecimal_char s \<and> length s \<le> int_max_str_digits
      then Inr (decimal_value s)
      else Inl ValueError)"

definition isspace_char :: "char \<Rightarrow> bool" where
  "isspace_char c =
     ((9 \<le> (of_char c :: nat) \<and> (of_char c :: nat) \<le> 13)
      \<or> (28 \<le> (of_char c :: nat) \<and> (of_char c :: nat) \<le> 32)
      \<or> (of_char c :: nat) = 133 \<or> (of_char c :: nat) = 160)"

definition strip :: "string \<Rightarrow> string" where
  "strip s = rev (dropWhile isspace_char (rev (dropWhile isspace_char s)))"

subsection \<open>\<^verbatim>\<open>refresh_id_list\<close>\<close>

text \<open>
  The sort key of an id is the tuple \<^verbatim>\<open>(0, int(s))\<close> or \<^verbatim>\<open>(1, s)\<close>. Python compares
  tuples component by component, and two keys with the same first component have
  second components of the same kind. A key is modelled as a triple ordered
  lexicographically, \<open>(0, n, [])\<close> for a number and \<open>(1, 0, s)\<close> for a string, which
  compares as the tuples do.
\<close>

definition sort_key_ids :: "string \<Rightarrow> py_error + (nat \<times> int \<times> string)" where
  "sort_key_ids s =
     (if str_isdigit s
      then (case py_int_digits s of Inl e \<Rightarrow> Inl e | Inr n \<Rightarrow> Inr (0, n, []))
      else Inr (1, 0, s))"

text \<open>The key of an id on which \<^verbatim>\<open>int\<close> does not raise, for stating the order.\<close>

definition id_key :: "string \<Rightarrow> nat \<times> int \<times> string" where
  "id_key s = (if str_isdigit s then (0, decimal_value s, []) else (1, 0, s))"

text \<open>
  \<^verbatim>\<open>list.sort(key=f)\<close> computes the key of every element first, from left to right,
  and raises what \<open>f\<close> raises; then it sorts by the keys, stably.
\<close>

fun keys_of :: "('a \<Rightarrow> py_error + 'k) \<Rightarrow> 'a list \<Rightarrow> py_error + 'k list" where
  "keys_of f [] = Inr []"
| "keys_of f (x # xs) =
     (case f x of
        Inl e \<Rightarrow> Inl e
      | Inr k \<Rightarrow> (case keys_of f xs of Inl e \<Rightarrow> Inl e | Inr ks \<Rightarrow> Inr (k # ks)))"

definition list_sort_key :: "('a \<Rightarrow> py_error + 'k::linorder) \<Rightarrow> 'a list \<Rightarrow> py_error + 'a list" where
  "list_sort_key f xs =
     (case keys_of f xs of
        Inl e \<Rightarrow> Inl e
      | Inr ks \<Rightarrow> Inr (map snd (sort_key fst (zip ks xs))))"

text \<open>Lines 463 to 467: \<^verbatim>\<open>ids.sort(key=sort_key)\<close>.\<close>

definition sort_ids :: "string list \<Rightarrow> py_error + string list" where
  "sort_ids ids = list_sort_key sort_key_ids ids"

text \<open>
  Lines 461 and 469 to 470: the text of the filter field is stripped, and a text
  that is not empty keeps the ids it occurs in.
\<close>

definition filter_ids :: "string \<Rightarrow> string list \<Rightarrow> string list" where
  "filter_ids var_filter ids =
     (let filter_text = strip var_filter
      in if filter_text \<noteq> [] then filter (\<lambda>i. sublist filter_text i) ids else ids)"

text \<open>
  \<^verbatim>\<open>refresh_id_list\<close>: the ids inserted into the list box, from the loaded index, the
  selected type, whether the category box is shown, its text, and the filter text.
\<close>

definition refresh_id_list ::
  "json \<Rightarrow> string \<Rightarrow> bool \<Rightarrow> string \<Rightarrow> string \<Rightarrow> py_error + string list" where
  "refresh_id_list icon_db t category_visible var_category var_filter =
     (if t = [] then Inr []
      else
        let cat = (if t = ''Item'' \<and> category_visible
                   then (if var_category = [] then None else Some var_category)
                   else None)
        in case get_ids icon_db t cat of
             Inl e \<Rightarrow> Inl e
           | Inr entries \<Rightarrow>
               if entries = [] then Inr []
               else
                 (case sort_ids (map fst entries) of
                    Inl e \<Rightarrow> Inl e
                  | Inr ids \<Rightarrow> Inr (filter_ids var_filter ids)))"

subsection \<open>The scale of the preview in \<^verbatim>\<open>_on_id_selected\<close>\<close>

text \<open>
  \<^verbatim>\<open>w / max_w\<close> divides one \<^verbatim>\<open>int\<close> by another and gives the float nearest to the
  quotient, a tie going to the even mantissa, or raises \<^verbatim>\<open>OverflowError\<close> when that
  float is out of range. The divisor is 512, a power of two, which changes the exponent
  only: the float is the dividend rounded to 53 significant bits, over 512. Below
  \<open>2 ^ 53\<close> the dividend has no more bits than that and the float is the exact quotient.
  A float is kept as the rational number it stands for.
\<close>

definition round_53 :: "int \<Rightarrow> int" where
  "round_53 n =
     (if \<bar>n\<bar> < 2 ^ 53 then n
      else
        let sh = nat (bitlen \<bar>n\<bar> - 53);
            q = \<bar>n\<bar> div 2 ^ sh;
            r = \<bar>n\<bar> mod 2 ^ sh;
            m = (if 2 ^ (sh - 1) < r \<or> (r = 2 ^ (sh - 1) \<and> odd q) then q + 1 else q)
        in sgn n * (m * 2 ^ sh))"

definition py_truediv_512 :: "int \<Rightarrow> py_error + rat" where
  "py_truediv_512 n =
     (if 2 ^ 1033 \<le> \<bar>round_53 n\<bar> then Inl OverflowError
      else Inr (of_int (round_53 n) / 512))"

text \<open>\<^verbatim>\<open>int(x)\<close> of a float cuts the fraction off.\<close>

definition py_int_trunc :: "rat \<Rightarrow> int" where
  "py_int_trunc x = (if 0 \<le> x then \<lfloor>x\<rfloor> else \<lceil>x\<rceil>)"

definition max_w :: int where
  "max_w = 512"

definition max_h :: int where
  "max_h = 512"

text \<open>
  Lines 514 to 519, from the width and the height of the image: the factor given to
  \<^verbatim>\<open>img.subsample\<close>, or \<open>None\<close> when the image is shown as it is.
\<close>

definition subsample_scale :: "int \<Rightarrow> int \<Rightarrow> py_error + int option" where
  "subsample_scale w h =
     (if w > max_w \<or> h > max_h then
        (case py_truediv_512 w of
           Inl e \<Rightarrow> Inl e
         | Inr qw \<Rightarrow>
             (case py_truediv_512 h of
                Inl e \<Rightarrow> Inl e
              | Inr qh \<Rightarrow>
                  let scale = max qw qh;
                      scale = py_int_trunc scale;
                      scale = (if scale < 1 then 1 else scale)
                  in Inr (Some scale)))
      else Inr None)"

text \<open>
  \<^verbatim>\<open>img.subsample(x, y)\<close> keeps the columns 0, \<open>x\<close>, \<open>2x\<close>, ... and the rows 0, \<open>y\<close>,
  \<open>2y\<close>, ... of the image: a side of \<open>n\<close> pixels has \<open>n / x\<close> pixels afterwards,
  rounded up. \<open>preview_size\<close> is the size of the image that lines 514 to 521 put on the
  preview label.
\<close>

definition subsample_size :: "int \<Rightarrow> int \<Rightarrow> int" where
  "subsample_size n k = (n + k - 1) div k"

definition preview_size :: "int \<Rightarrow> int \<Rightarrow> py_error + int \<times> int" where
  "preview_size w h =
     (case subsample_scale w h of
        Inl e \<Rightarrow> Inl e
      | Inr None \<Rightarrow> Inr (w, h)
      | Inr (Some scale) \<Rightarrow> Inr (subsample_size w scale, subsample_size h scale))"

text \<open>
  The factor as the specification words it, for comparison with \<open>subsample_scale\<close>:
  \<^verbatim>\<open>ceil(max(width/maxWidth, height/maxHeight))\<close>, clamped to a minimum of 1.
\<close>

definition spec_downscale_factor :: "int \<Rightarrow> int \<Rightarrow> int" where
  "spec_downscale_factor w h = max 1 \<lceil>max (of_int w / 512) (of_int h / 512) :: rat\<rceil>"

subsection \<open>The index of the end-to-end scenario\<close>

definition scenario_index :: json where
  "scenario_index =
     JDict [(''Item'', JDict [(''Cash'', JDict [(''1002186'', JStr ''cash/1002186.png'')])]),
            (''Mob'', JDict [(''100100'', JStr ''mob/100100.png'')])]"

section \<open>Facts about the Python operations\<close>

lemma update_fresh: "k \<notin> fst ` set acc \<Longrightarrow> AList.update k v acc = acc @ [(k, v)]"
  by (induction acc) auto

lemma foldl_update_distinct:
  "distinct (map fst (acc @ d)) \<Longrightarrow>
   foldl (\<lambda>acc (k, v). AList.update k v acc) acc d = acc @ d"
proof (induction d arbitrary: acc)
  case Nil
  then show ?case by simp
next
  case (Cons p d)
  obtain k v where p: "p = (k, v)" by (cases p)
  from Cons.prems have "k \<notin> fst ` set acc" by (auto simp: p)
  then have u: "AList.update k v acc = acc @ [(k, v)]" by (rule update_fresh)
  from Cons.prems have "distinct (map fst ((acc @ [(k, v)]) @ d))" by (simp add: p)
  from Cons.IH [OF this] show ?case by (simp add: p u)
qed

text \<open>The comprehension copies a dict: its keys are strings and distinct already.\<close>

lemma dict_str_keys_wf: "wf_dict d \<Longrightarrow> dict_str_keys d = d"
  using foldl_update_distinct [of "[]" d]
  by (simp add: wf_dict_def dict_str_keys_def str_key_def)

lemma map_str_key: "map str_key ks = ks"
  by (induction ks) (simp_all add: str_key_def)

lemma wf_json_lookup: "wf_json (JDict d) \<Longrightarrow> map_of d k = Some v \<Longrightarrow> wf_json v"
  by (auto simp: list_all_iff dest!: map_of_SomeD)

section \<open>The query functions on an index\<close>

text \<open>On a dict, \<open>is_nested_item\<close> and \<open>get_ids\<close> never raise; their results by cases.\<close>

lemma is_nested_item_dict:
  "is_nested_item (JDict d) t =
     Inr (case map_of d t of
            Some (JDict m) \<Rightarrow> list_ex isinstance_dict (map snd m)
          | _ \<Rightarrow> False)"
proof (cases "map_of d t")
  case None
  then have "t \<notin> fst ` set d" by (simp add: map_of_eq_None_iff)
  with None show ?thesis by (simp add: is_nested_item_def)
next
  case (Some v)
  then have "t \<in> fst ` set d" by (metis map_of_eq_None_iff option.distinct(1))
  with Some show ?thesis by (cases v) (simp_all add: is_nested_item_def)
qed

lemma get_ids_dict:
  "get_ids (JDict d) t c =
     Inr (case map_of d t of
            None \<Rightarrow> []
          | Some (JDict m) \<Rightarrow>
              if t = ''Item'' \<and> list_ex isinstance_dict (map snd m)
              then (case c of
                      None \<Rightarrow> []
                    | Some cat \<Rightarrow>
                        if cat = [] then []
                        else (case map_of m cat of
                                Some (JDict s) \<Rightarrow> dict_str_keys s
                              | _ \<Rightarrow> []))
              else dict_str_keys m
          | Some _ \<Rightarrow> [])"
proof (cases "map_of d t")
  case None
  then have "t \<notin> fst ` set d" by (simp add: map_of_eq_None_iff)
  with None show ?thesis by (simp add: get_ids_def)
next
  case (Some v)
  then have mem: "t \<in> fst ` set d" by (metis map_of_eq_None_iff option.distinct(1))
  show ?thesis
  proof (cases "t = ''Item''")
    case True
    with Some mem show ?thesis
      by (cases v) (auto simp: get_ids_def is_nested_item_dict split: option.splits json.splits)
  next
    case False
    with Some mem show ?thesis
      by (cases v) (simp_all add: get_ids_def)
  qed
qed

lemma scenario_index_wf: "wf_json scenario_index"
  by (simp add: scenario_index_def wf_dict_def)

text \<open>
  Claim C6. \<open>load_icon_db\<close>, once the document has parsed to a value \<open>v\<close>, fails with the
  \<^verbatim>\<open>ValueError\<close> of line 41 exactly when \<open>v\<close> is not a dict, and returns \<open>v\<close> itself when
  it is one.
\<close>

theorem load_icon_db_format_error:
  "(load_icon_db (Inr v) = Inl ValueError \<longleftrightarrow> \<not> isinstance_dict v) \<and>
   (isinstance_dict v \<longrightarrow> load_icon_db (Inr v) = Inr v) \<and>
   (\<forall>e. load_icon_db (Inr v) = Inl e \<longrightarrow> e = ValueError)"
  by (simp add: load_icon_db_def)

theorem load_icon_db_format_error_witness:
  "isinstance_dict scenario_index \<and> load_icon_db (Inr scenario_index) = Inr scenario_index \<and>
   \<not> isinstance_dict (JList [JInt 1]) \<and> load_icon_db (Inr (JList [JInt 1])) = Inl ValueError"
proof -
  have a: "isinstance_dict scenario_index" by (simp add: scenario_index_def)
  have b: "\<not> isinstance_dict (JList [JInt 1])" by simp
  from a b load_icon_db_format_error [of scenario_index]
    load_icon_db_format_error [of "JList [JInt 1]"]
  show ?thesis by blast
qed

text \<open>
  Claim C7. \<open>get_types\<close> of a loaded index returns its top-level keys, each as often as
  it is there, in ascending order of the strings; the order is by code point, so an
  upper-case letter comes before a lower-case one.
\<close>

theorem get_types_sorted_keys:
  "sorted (get_types (JDict d)) \<and> mset (get_types (JDict d)) = mset (map fst d) \<and>
   get_types (JDict [(''b'', JNull), (''a'', JNull), (''B'', JNull)]) = [''B'', ''a'', ''b'']"
  by (simp add: get_types_def map_str_key str_key_def del: map_map)

text \<open>
  Claim C8. On the index of the scenario, \<open>get_types\<close> returns \<^verbatim>\<open>["Item", "Mob"]\<close>,
  \<open>get_categories\<close> of \<^verbatim>\<open>Item\<close> returns \<^verbatim>\<open>["Cash"]\<close>, \<open>get_ids\<close> of \<^verbatim>\<open>Item\<close> with the
  category \<^verbatim>\<open>Cash\<close> has the one id \<^verbatim>\<open>1002186\<close>, and \<open>get_ids\<close> of the flat type
  \<^verbatim>\<open>Mob\<close>, which has no categories, has the one id \<^verbatim>\<open>100100\<close>.
\<close>

theorem scenario_queries:
  "get_types scenario_index = [''Item'', ''Mob''] \<and>
   get_categories scenario_index ''Item'' = Inr [''Cash''] \<and>
   get_ids scenario_index ''Item'' (Some ''Cash'') = Inr [(''1002186'', JStr ''cash/1002186.png'')] \<and>
   get_categories scenario_index ''Mob'' = Inr [] \<and>
   get_ids scenario_index ''Mob'' None = Inr [(''100100'', JStr ''mob/100100.png'')]"
  by (simp add: scenario_index_def get_types_def get_categories_def get_ids_def
      is_nested_item_def dict_str_keys_def str_key_def)

text \<open>
  Claim C5. On an index, \<open>is_nested_item\<close> returns true exactly when the type is a key
  whose value is a dict with a dict among its values, and false otherwise; for a type
  with no dict among the values of its mapping it returns false and \<open>get_categories\<close>
  returns the empty list.
\<close>

theorem is_nested_item_iff:
  "(is_nested_item (JDict d) t = Inr True \<longleftrightarrow>
      (\<exists>m. map_of d t = Some (JDict m) \<and> (\<exists>v \<in> set (map snd m). isinstance_dict v))) \<and>
   (is_nested_item (JDict d) t \<noteq> Inr True \<longrightarrow> is_nested_item (JDict d) t = Inr False) \<and>
   ((\<forall>m. map_of d t = Some (JDict m) \<longrightarrow> (\<forall>v \<in> set (map snd m). \<not> isinstance_dict v)) \<longrightarrow>
      is_nested_item (JDict d) t = Inr False \<and> get_categories (JDict d) t = Inr [])"
  by (auto simp: is_nested_item_dict get_categories_def list_ex_iff
      split: option.splits json.splits)

theorem is_nested_item_iff_witness:
  "is_nested_item (JDict [(''Mob'', JDict [(''100100'', JStr ''mob/100100.png'')])]) ''Mob''
     = Inr False \<and>
   get_categories (JDict [(''Mob'', JDict [(''100100'', JStr ''mob/100100.png'')])]) ''Mob''
     = Inr [] \<and>
   is_nested_item (JDict [(''Item'', JDict [(''Cash'', JDict [])])]) ''Item'' = Inr True"
proof -
  have flat: "\<forall>m. map_of [(''Mob'', JDict [(''100100'', JStr ''mob/100100.png'')])] ''Mob''
        = Some (JDict m) \<longrightarrow> (\<forall>v \<in> set (map snd m). \<not> isinstance_dict v)"
    by simp
  have nested: "\<exists>m. map_of [(''Item'', JDict [(''Cash'', JDict [])])] ''Item'' = Some (JDict m)
        \<and> (\<exists>v \<in> set (map snd m). isinstance_dict v)"
    by simp
  note a = is_nested_item_iff
    [of "[(''Mob'', JDict [(''100100'', JStr ''mob/100100.png'')])]" "''Mob''",
      THEN conjunct2, THEN conjunct2, THEN mp, OF flat]
  note b = is_nested_item_iff
    [of "[(''Item'', JDict [(''Cash'', JDict [])])]" "''Item''", THEN conjunct1, THEN iffD2,
      OF nested]
  from a b show ?thesis by blast
qed

text \<open>
  Claim C10. When \<^verbatim>\<open>Item\<close> is nested in the index, \<open>get_ids\<close> of \<^verbatim>\<open>Item\<close> returns the
  empty mapping both without a category and with the empty string as the category.
\<close>

theorem get_ids_item_no_category:
  "is_nested_item icon_db ''Item'' = Inr True \<Longrightarrow>
   get_ids icon_db ''Item'' None = Inr [] \<and> get_ids icon_db ''Item'' (Some []) = Inr []"
  by (auto simp: get_ids_def is_nested_item_def split: sum.splits bool.splits)

theorem get_ids_item_no_category_witness:
  "is_nested_item scenario_index ''Item'' = Inr True \<and>
   get_ids scenario_index ''Item'' None = Inr [] \<and>
   get_ids scenario_index ''Item'' (Some []) = Inr []"
proof -
  have n: "is_nested_item scenario_index ''Item'' = Inr True"
    by (simp add: scenario_index_def is_nested_item_def)
  from n get_ids_item_no_category [OF n] show ?thesis by simp
qed

text \<open>
  Claim C1, as the code has it. The branch for categories is taken for the type named
  \<^verbatim>\<open>Item\<close> only. On an index that Python can hold: \<open>get_ids\<close> of a type that is not a
  key returns the empty mapping; of \<^verbatim>\<open>Item\<close>, when it is nested, with a category that is
  not empty, the mapping stored under the category, or the empty mapping when the
  category is no key or its value is no dict; of every other type whose value is a
  dict, and of \<^verbatim>\<open>Item\<close> when it is flat, that dict itself, whatever the category; and of
  a type whose value is no dict the empty mapping.
\<close>

theorem get_ids_by_type:
  "wf_json (JDict d) \<Longrightarrow>
   (map_of d t = None \<longrightarrow> get_ids (JDict d) t c = Inr []) \<and>
   (\<forall>m cat. map_of d ''Item'' = Some (JDict m) \<and> (\<exists>v \<in> set (map snd m). isinstance_dict v)
        \<and> cat \<noteq> [] \<longrightarrow>
      get_ids (JDict d) ''Item'' (Some cat) =
        Inr (case map_of m cat of Some (JDict s) \<Rightarrow> s | _ \<Rightarrow> [])) \<and>
   (\<forall>m. map_of d t = Some (JDict m)
        \<and> (t \<noteq> ''Item'' \<or> (\<forall>v \<in> set (map snd m). \<not> isinstance_dict v)) \<longrightarrow>
      get_ids (JDict d) t c = Inr m) \<and>
   (\<forall>v. map_of d t = Some v \<and> \<not> isinstance_dict v \<longrightarrow> get_ids (JDict d) t c = Inr [])"
proof (intro conjI allI impI)
  assume "map_of d t = None"
  then show "get_ids (JDict d) t c = Inr []" by (simp add: get_ids_dict)
next
  fix m and cat :: string
  assume wf: "wf_json (JDict d)"
    and h: "map_of d ''Item'' = Some (JDict m) \<and> (\<exists>v \<in> set (map snd m). isinstance_dict v)
        \<and> cat \<noteq> []"
  from wf h have wfm: "wf_json (JDict m)" by (blast intro: wf_json_lookup)
  have "dict_str_keys s = s" if "map_of m cat = Some (JDict s)" for s
    using wf_json_lookup [OF wfm that] by (simp add: dict_str_keys_wf)
  with h show "get_ids (JDict d) ''Item'' (Some cat) =
        Inr (case map_of m cat of Some (JDict s) \<Rightarrow> s | _ \<Rightarrow> [])"
    by (auto simp: get_ids_dict list_ex_iff split: option.splits json.splits)
next
  fix m
  assume wf: "wf_json (JDict d)"
    and h: "map_of d t = Some (JDict m)
        \<and> (t \<noteq> ''Item'' \<or> (\<forall>v \<in> set (map snd m). \<not> isinstance_dict v))"
  from wf h have "wf_json (JDict m)" by (blast intro: wf_json_lookup)
  then have "dict_str_keys m = m" by (simp add: dict_str_keys_wf)
  with h show "get_ids (JDict d) t c = Inr m"
    by (auto simp: get_ids_dict list_ex_iff)
next
  fix v
  assume "map_of d t = Some v \<and> \<not> isinstance_dict v"
  then show "get_ids (JDict d) t c = Inr []"
    by (cases v) (simp_all add: get_ids_dict)
qed

theorem get_ids_by_type_witness:
  "wf_json (JDict [(''Item'', JDict [(''Cash'', JDict [(''1002186'', JStr ''cash/1002186.png'')])]),
                   (''Mob'', JDict [(''100100'', JStr ''mob/100100.png'')]),
                   (''Npc'', JInt 3)]) \<and>
   get_ids (JDict [(''Item'', JDict [(''Cash'', JDict [(''1002186'', JStr ''cash/1002186.png'')])]),
                   (''Mob'', JDict [(''100100'', JStr ''mob/100100.png'')]),
                   (''Npc'', JInt 3)]) ''Item'' (Some ''Cash'')
     = Inr [(''1002186'', JStr ''cash/1002186.png'')] \<and>
   get_ids (JDict [(''Item'', JDict [(''Cash'', JDict [(''1002186'', JStr ''cash/1002186.png'')])]),
                   (''Mob'', JDict [(''100100'', JStr ''mob/100100.png'')]),
                   (''Npc'', JInt 3)]) ''Mob'' None
     = Inr [(''100100'', JStr ''mob/100100.png'')] \<and>
   get_ids (JDict [(''Item'', JDict [(''Cash'', JDict [(''1002186'', JStr ''cash/1002186.png'')])]),
                   (''Mob'', JDict [(''100100'', JStr ''mob/100100.png'')]),
                   (''Npc'', JInt 3)]) ''Npc'' None = Inr [] \<and>
   get_ids (JDict [(''Item'', JDict [(''Cash'', JDict [(''1002186'', JStr ''cash/1002186.png'')])]),
                   (''Mob'', JDict [(''100100'', JStr ''mob/100100.png'')]),
                   (''Npc'', JInt 3)]) ''Map'' None = Inr []"
proof -
  let ?d = "[(''Item'', JDict [(''Cash'', JDict [(''1002186'', JStr ''cash/1002186.png'')])]),
             (''Mob'', JDict [(''100100'', JStr ''mob/100100.png'')]),
             (''Npc'', JInt 3)]"
  have wf: "wf_json (JDict ?d)" by (simp add: wf_dict_def)
  have item: "map_of ?d ''Item''
        = Some (JDict [(''Cash'', JDict [(''1002186'', JStr ''cash/1002186.png'')])])
      \<and> (\<exists>v \<in> set (map snd [(''Cash'', JDict [(''1002186'', JStr ''cash/1002186.png'')])]).
            isinstance_dict v)
      \<and> ''Cash'' \<noteq> []"
    by simp
  have mob: "map_of ?d ''Mob'' = Some (JDict [(''100100'', JStr ''mob/100100.png'')])
      \<and> (''Mob'' \<noteq> ''Item''
          \<or> (\<forall>v \<in> set (map snd [(''100100'', JStr ''mob/100100.png'')]). \<not> isinstance_dict v))"
    by simp
  have npc: "map_of ?d ''Npc'' = Some (JInt 3) \<and> \<not> isinstance_dict (JInt 3)" by simp
  have absent: "map_of ?d ''Map'' = None" by simp
  note a = get_ids_by_type [OF wf, of "''Item''" None, THEN conjunct2, THEN conjunct1,
      rule_format, OF item]
  note b = get_ids_by_type [OF wf, of "''Mob''" None, THEN conjunct2, THEN conjunct2,
      THEN conjunct1, rule_format, OF mob]
  note c = get_ids_by_type [OF wf, of "''Npc''" None, THEN conjunct2, THEN conjunct2,
      THEN conjunct2, rule_format, OF npc]
  note e = get_ids_by_type [OF wf, of "''Map''" None, THEN conjunct1, rule_format, OF absent]
  from a have a': "get_ids (JDict ?d) ''Item'' (Some ''Cash'')
      = Inr [(''1002186'', JStr ''cash/1002186.png'')]" by simp
  from wf a' b c e show ?thesis by blast
qed

text \<open>
  The claim C1 as it is worded fails on a nested type with another name: \<^verbatim>\<open>Mob\<close> below
  has a dict among its values, and \<open>get_ids\<close> with the category \<^verbatim>\<open>A\<close> returns the whole
  mapping of \<^verbatim>\<open>Mob\<close>, not the mapping stored under \<^verbatim>\<open>A\<close>.
\<close>

theorem get_ids_nested_other_type_counterexample:
  "is_nested_item (JDict [(''Mob'', JDict [(''A'', JDict [(''1'', JStr ''x'')])])]) ''Mob''
     = Inr True \<and>
   py_getitem (JDict [(''A'', JDict [(''1'', JStr ''x'')])]) ''A''
     = Inr (JDict [(''1'', JStr ''x'')]) \<and>
   get_ids (JDict [(''Mob'', JDict [(''A'', JDict [(''1'', JStr ''x'')])])]) ''Mob'' (Some ''A'')
     = Inr [(''A'', JDict [(''1'', JStr ''x'')])] \<and>
   get_ids (JDict [(''Mob'', JDict [(''A'', JDict [(''1'', JStr ''x'')])])]) ''Mob'' (Some ''A'')
     \<noteq> Inr [(''1'', JStr ''x'')]"
  by (simp add: get_ids_def is_nested_item_def dict_str_keys_def str_key_def)

text \<open>
  Claim C9, as the code has it. \<open>get_types\<close> returns the empty list on every value that
  is not a dict. On every dict, \<open>is_nested_item\<close> and \<open>get_ids\<close> return a result, and for
  a type that is no key or whose value is no dict they return false and the empty
  mapping.
\<close>

theorem queries_total_on_dict:
  "(\<not> isinstance_dict x \<longrightarrow> get_types x = []) \<and>
   (\<exists>b. is_nested_item (JDict d) t = Inr b) \<and>
   (\<exists>r. get_ids (JDict d) t c = Inr r) \<and>
   (map_of d t = None \<or> (\<exists>v. map_of d t = Some v \<and> \<not> isinstance_dict v) \<longrightarrow>
      is_nested_item (JDict d) t = Inr False \<and> get_ids (JDict d) t c = Inr [])"
proof (intro conjI impI)
  assume "\<not> isinstance_dict x"
  then show "get_types x = []" by (cases x) (simp_all add: get_types_def)
next
  show "\<exists>b. is_nested_item (JDict d) t = Inr b" by (simp add: is_nested_item_dict)
next
  show "\<exists>r. get_ids (JDict d) t c = Inr r" by (simp add: get_ids_dict)
next
  assume h: "map_of d t = None \<or> (\<exists>v. map_of d t = Some v \<and> \<not> isinstance_dict v)"
  then show "is_nested_item (JDict d) t = Inr False"
    by (auto simp: is_nested_item_dict split: json.splits)
next
  assume h: "map_of d t = None \<or> (\<exists>v. map_of d t = Some v \<and> \<not> isinstance_dict v)"
  then show "get_ids (JDict d) t c = Inr []"
    by (auto simp: get_ids_dict split: json.splits)
qed

theorem queries_total_on_dict_witness:
  "\<not> isinstance_dict (JList [JStr ''Item'']) \<and> get_types (JList [JStr ''Item'']) = [] \<and>
   is_nested_item (JDict [(''Npc'', JInt 3)]) ''Npc'' = Inr False \<and>
   get_ids (JDict [(''Npc'', JInt 3)]) ''Npc'' None = Inr [] \<and>
   is_nested_item (JDict [(''Npc'', JInt 3)]) ''Map'' = Inr False \<and>
   get_ids (JDict [(''Npc'', JInt 3)]) ''Map'' (Some ''Cash'') = Inr []"
proof -
  have nd: "\<not> isinstance_dict (JList [JStr ''Item''])" by simp
  have npc: "map_of [(''Npc'', JInt 3)] ''Npc'' = None
      \<or> (\<exists>v. map_of [(''Npc'', JInt 3)] ''Npc'' = Some v \<and> \<not> isinstance_dict v)"
    by simp
  have absent: "map_of [(''Npc'', JInt 3)] ''Map'' = None
      \<or> (\<exists>v. map_of [(''Npc'', JInt 3)] ''Map'' = Some v \<and> \<not> isinstance_dict v)"
    by simp
  note a = queries_total_on_dict [of "JList [JStr ''Item'']" "[]" "[]" None,
      THEN conjunct1, THEN mp, OF nd]
  note b = queries_total_on_dict [of JNull "[(''Npc'', JInt 3)]" "''Npc''" None,
      THEN conjunct2, THEN conjunct2, THEN conjunct2, THEN mp, OF npc]
  note c = queries_total_on_dict [of JNull "[(''Npc'', JInt 3)]" "''Map''" "Some ''Cash''",
      THEN conjunct2, THEN conjunct2, THEN conjunct2, THEN mp, OF absent]
  from nd a b c show ?thesis by blast
qed

text \<open>
  The claim C9 as it is worded fails on a database that is no dict: on the number 5 the
  test \<^verbatim>\<open>type_name not in icon_db\<close> raises \<^verbatim>\<open>TypeError\<close>, and on the list
  \<^verbatim>\<open>["Item"]\<close> the test passes and \<^verbatim>\<open>icon_db[type_name]\<close> raises it.
\<close>

theorem queries_raise_on_non_dict_counterexample:
  "is_nested_item (JInt 5) ''Item'' = Inl TypeError \<and>
   get_ids (JInt 5) ''Item'' None = Inl TypeError \<and>
   is_nested_item (JList [JStr ''Item'']) ''Item'' = Inl TypeError \<and>
   get_ids (JList [JStr ''Item'']) ''Item'' None = Inl TypeError"
  by (simp add: is_nested_item_def get_ids_def)

section \<open>The id list\<close>

lemma keys_of_total: "\<forall>x \<in> set xs. f x = Inr (g x) \<Longrightarrow> keys_of f xs = Inr (map g xs)"
  by (induction xs) simp_all

text \<open>Sorting the ids decorated with their keys and dropping the keys sorts the ids by key.\<close>

lemma insort_key_decorated:
  "\<forall>p \<in> set ps. fst p = g (snd p) \<Longrightarrow>
   map snd (insort_key fst (g x, x) ps) = insort_key g x (map snd ps)"
  by (induction ps) simp_all

lemma sort_key_decorated: "map snd (sort_key fst (zip (map g xs) xs)) = sort_key g xs"
proof (induction xs)
  case Nil
  show ?case by simp
next
  case (Cons x xs)
  have "\<forall>p \<in> set (sort_key fst (zip (map g xs) xs)). fst p = g (snd p)"
    by (auto simp: in_set_zip)
  then show ?case using Cons by (simp add: insort_key_decorated)
qed

text \<open>
  \<^verbatim>\<open>int\<close> accepts an id of digits when the digits are decimal and no more than the limit.
\<close>

lemma sort_key_ids_decimal:
  "(str_isdigit s \<longrightarrow> list_all isdecimal_char s \<and> length s \<le> int_max_str_digits) \<Longrightarrow>
   sort_key_ids s = Inr (id_key s)"
  by (simp add: sort_key_ids_def id_key_def py_int_digits_def str_isdigit_def)

lemma sort_ids_decimal:
  assumes "\<forall>s \<in> set ids.
     str_isdigit s \<longrightarrow> list_all isdecimal_char s \<and> length s \<le> int_max_str_digits"
  shows "sort_ids ids = Inr (sort_key id_key ids)"
proof -
  from assms have "keys_of sort_key_ids ids = Inr (map id_key ids)"
    by (intro keys_of_total) (simp add: sort_key_ids_decimal)
  then show ?thesis by (simp add: sort_ids_def list_sort_key_def sort_key_decorated)
qed

lemma id_key_le:
  "id_key a \<le> id_key b \<longleftrightarrow>
     (if str_isdigit a then (str_isdigit b \<longrightarrow> decimal_value a \<le> decimal_value b)
      else \<not> str_isdigit b \<and> a \<le> b)"
  by (auto simp: id_key_def less_eq_prod_def less_prod_def)

text \<open>
  When every id made of digits is made of decimal digits, no more of them than the
  limit of \<^verbatim>\<open>int\<close>, the sort returns a permutation of the ids in which an id of digits
  never comes after another id, the ids of digits ascend by value and the other ids
  ascend as strings; ids with the same key keep their order.
\<close>

lemma sort_ids_order:
  assumes dec: "\<forall>s \<in> set ids.
     str_isdigit s \<longrightarrow> list_all isdecimal_char s \<and> length s \<le> int_max_str_digits"
  shows "\<exists>r. sort_ids ids = Inr r \<and> mset r = mset ids \<and>
     (\<forall>i j. i < j \<and> j < length r \<longrightarrow>
        (str_isdigit (r ! j) \<longrightarrow>
           str_isdigit (r ! i) \<and> decimal_value (r ! i) \<le> decimal_value (r ! j)) \<and>
        (\<not> str_isdigit (r ! i) \<longrightarrow> \<not> str_isdigit (r ! j) \<and> r ! i \<le> r ! j))"
proof -
  let ?r = "sort_key id_key ids"
  have srt: "sorted (map id_key ?r)" by (rule sorted_sort_key)
  have ord: "id_key (?r ! i) \<le> id_key (?r ! j)" if "i < j" "j < length ?r" for i j
    using sorted_nth_mono [OF srt, of i j] that by simp
  have "(str_isdigit (?r ! j) \<longrightarrow>
           str_isdigit (?r ! i) \<and> decimal_value (?r ! i) \<le> decimal_value (?r ! j)) \<and>
        (\<not> str_isdigit (?r ! i) \<longrightarrow> \<not> str_isdigit (?r ! j) \<and> ?r ! i \<le> ?r ! j)"
    if "i < j" "j < length ?r" for i j
    using ord [OF that] by (auto simp: id_key_le split: if_splits)
  then show ?thesis using sort_ids_decimal [OF dec] by auto
qed

lemma sort_ids_stable:
  assumes dec: "\<forall>s \<in> set ids.
     str_isdigit s \<longrightarrow> list_all isdecimal_char s \<and> length s \<le> int_max_str_digits"
  shows "\<exists>r. sort_ids ids = Inr r \<and>
     filter (\<lambda>s. id_key s = k) r = filter (\<lambda>s. id_key s = k) ids"
  using sort_ids_decimal [OF dec] by (simp add: sort_key_stable)

lemma sort_ids_example:
  "sort_ids [''10'', ''2'', ''abc'', ''1''] = Inr [''1'', ''2'', ''10'', ''abc'']"
  by (simp add: sort_ids_def list_sort_key_def sort_key_ids_def str_isdigit_def
      isdigit_char_def isdecimal_char_def py_int_digits_def decimal_value_def digit_value_def
      int_max_str_digits_def)

text \<open>An id of more decimal digits than the limit makes the sort raise as well.\<close>

lemma sort_ids_long_digits:
  "sort_ids [replicate 4301 (CHR ''1'')] = Inl ValueError"
  by (simp add: sort_ids_def list_sort_key_def sort_key_ids_def str_isdigit_def
      isdigit_char_def isdecimal_char_def py_int_digits_def int_max_str_digits_def
      list_all_length)

text \<open>
  Claim C3 does not hold of the code for every list of ids. The id made of the one
  character U+00B2 (superscript two) passes \<^verbatim>\<open>s.isdigit()\<close>, so its key is
  \<^verbatim>\<open>(0, int(s))\<close>, and \<^verbatim>\<open>int\<close> raises \<^verbatim>\<open>ValueError\<close> on it: the sort of a list that holds
  such an id raises, and \<open>refresh_id_list\<close> with it, where the claim has the id in the
  list that is shown.
\<close>

theorem sort_ids_superscript_digit_raises:
  "str_isdigit [CHR 0xB2] \<and> sort_key_ids [CHR 0xB2] = Inl ValueError \<and>
   sort_ids [''10'', [CHR 0xB2], ''1''] = Inl ValueError \<and>
   refresh_id_list (JDict [(''Mob'', JDict [([CHR 0xB2], JStr ''a.png'')])]) ''Mob'' False [] []
     = Inl ValueError"
  by (simp add: sort_ids_def list_sort_key_def sort_key_ids_def str_isdigit_def
      isdigit_char_def isdecimal_char_def py_int_digits_def decimal_value_def digit_value_def
      int_max_str_digits_def refresh_id_list_def get_ids_def dict_str_keys_def str_key_def)

text \<open>
  Claim C4, as the code has it. The text of the filter field is stripped of leading
  and trailing white space first. The list that is shown holds the ids, in the order
  of the sorted list, in which the stripped text occurs as a substring; the
  comparison is case-sensitive.
\<close>

theorem filter_ids_stripped_substring:
  "filter_ids var_filter ids = filter (\<lambda>i. \<exists>ps ss. i = ps @ strip var_filter @ ss) ids \<and>
   subseq (filter_ids var_filter ids) ids \<and>
   filter_ids ''0'' [''100'', ''200'', ''Abc''] = [''100'', ''200''] \<and>
   filter_ids ''a'' [''100'', ''200'', ''Abc''] = []"
proof (intro conjI)
  have sub: "(\<exists>ps ss. i = ps @ t @ ss) = sublist t i" for t i :: string
    by (simp add: sublist_def)
  show eq: "filter_ids var_filter ids = filter (\<lambda>i. \<exists>ps ss. i = ps @ strip var_filter @ ss) ids"
    unfolding sub by (cases "strip var_filter = []") (simp_all add: filter_ids_def Let_def)
  show "subseq (filter_ids var_filter ids) ids"
    unfolding eq by (rule subseq_filter_left)
  show "filter_ids ''0'' [''100'', ''200'', ''Abc''] = [''100'', ''200'']"
    by (simp add: filter_ids_def strip_def isspace_char_def Let_def sublist_Cons_right)
  show "filter_ids ''a'' [''100'', ''200'', ''Abc''] = []"
    by (simp add: filter_ids_def strip_def isspace_char_def Let_def sublist_Cons_right)
qed

text \<open>
  The claim C4 as it is worded fails on a filter text with white space at an end: the
  text of one blank occurs in no id of the list, and every id is shown; with the text
  \<^verbatim>\<open>" 1"\<close> the id \<^verbatim>\<open>1\<close> is shown, in which the text does not occur.
\<close>

theorem filter_ids_blank_counterexample:
  "filter_ids '' '' [''1''] = [''1''] \<and> \<not> sublist '' '' ''1'' \<and>
   filter_ids '' 1'' [''1'', ''a 1''] = [''1'', ''a 1''] \<and> \<not> sublist '' 1'' ''1''"
  by (simp add: filter_ids_def strip_def isspace_char_def Let_def sublist_Cons_right)

section \<open>The scale of the preview\<close>

text \<open>The sides of an image are far below \<open>2 ^ 53\<close>, where the division is exact.\<close>

lemma py_truediv_512_exact:
  assumes "\<bar>n\<bar> < 2 ^ 53"
  shows "py_truediv_512 n = Inr (of_int n / 512)"
proof -
  from assms have r: "round_53 n = n" by (simp add: round_53_def)
  have "(2::int) ^ 53 \<le> 2 ^ 1033" by (rule power_increasing) simp_all
  with assms have "\<not> 2 ^ 1033 \<le> \<bar>n\<bar>" by linarith
  with r show ?thesis by (simp add: py_truediv_512_def)
qed

text \<open>
  From \<open>2 ^ 53\<close> on the dividend is rounded, to the nearer neighbour and to the even one
  halfway between two, and the float is not the exact quotient.
\<close>

lemma round_53_examples:
  "round_53 (2 ^ 53 + 1) = 2 ^ 53 \<and> round_53 (2 ^ 53 + 3) = 2 ^ 53 + 4 \<and>
   round_53 (2 ^ 62 - 1) = 2 ^ 62"
proof (intro conjI)
  have b1: "bitlen 9007199254740993 = 54" by (simp add: compute_bitlen)
  have b3: "bitlen 9007199254740995 = 54" by (simp add: compute_bitlen)
  have b5: "bitlen 4611686018427387903 = 62" by (simp add: compute_bitlen)
  have "round_53 9007199254740993 = 9007199254740992"
    by (simp add: round_53_def b1 Let_def)
  then show "round_53 (2 ^ 53 + 1) = 2 ^ 53" by simp
  have "round_53 9007199254740995 = 9007199254740996"
    by (simp add: round_53_def b3 Let_def)
  then show "round_53 (2 ^ 53 + 3) = 2 ^ 53 + 4" by simp
  have "round_53 4611686018427387903 = 4611686018427387904"
    by (simp add: round_53_def b5 Let_def)
  then show "round_53 (2 ^ 62 - 1) = 2 ^ 62" by simp
qed

lemma py_truediv_512_rounded:
  "py_truediv_512 (2 ^ 62 - 1) = Inr (2 ^ 53)"
proof -
  have r: "round_53 (2 ^ 62 - 1) = 2 ^ 62" using round_53_examples by blast
  have "(2::int) ^ 62 < 2 ^ 1033" by (rule power_strict_increasing) simp_all
  then have "py_truediv_512 (2 ^ 62 - 1) = Inr (of_int (2 ^ 62) / 512)"
    unfolding py_truediv_512_def r by simp
  also have "(of_int (2 ^ 62) / 512 :: rat) = 2 ^ 53" by simp
  finally show ?thesis .
qed

text \<open>The quotient rounded up, as \<open>subsample_size\<close> has it.\<close>

lemma subsample_size_le:
  assumes "1 \<le> k" "n \<le> m * k"
  shows "subsample_size n k \<le> m"
proof -
  from assms have "(n + k - 1) div k \<le> (m * k + (k - 1)) div k"
    by (intro zdiv_mono1) simp_all
  also from assms(1) have "(m * k + (k - 1)) div k = m"
    by (simp add: div_pos_pos_trivial)
  finally show ?thesis by (simp add: subsample_size_def)
qed

lemma max_quotients:
  "max (of_int w / 512) (of_int h / 512) = (of_int (max w h) / 512 :: rat)"
  by (simp add: max_def divide_le_cancel)

lemma subsample_scale_floor:
  assumes w: "\<bar>w\<bar> < 2 ^ 53" and h: "\<bar>h\<bar> < 2 ^ 53"
  shows "subsample_scale w h =
     Inr (if 512 < w \<or> 512 < h then Some (max w h div 512) else None)"
proof (cases "512 < w \<or> 512 < h")
  case False
  then show ?thesis by (simp add: subsample_scale_def max_w_def max_h_def)
next
  case True
  then have big: "512 < max w h" by auto
  then have pos: "(0::rat) \<le> of_int (max w h) / 512" by simp
  have fl: "\<lfloor>of_int (max w h) / 512 :: rat\<rfloor> = max w h div 512"
    using floor_divide_of_int_eq [of "max w h" 512, where ?'a = rat] by simp
  from big have one: "1 \<le> max w h div 512" by linarith
  have "subsample_scale w h =
      Inr (Some (let scale = py_int_trunc (of_int (max w h) / 512)
                 in if scale < 1 then 1 else scale))"
    using True unfolding subsample_scale_def py_truediv_512_exact [OF w]
      py_truediv_512_exact [OF h]
    by (simp add: max_w_def max_h_def max_quotients Let_def)
  also have "py_int_trunc (of_int (max w h) / 512) = max w h div 512"
    unfolding py_int_trunc_def using pos fl by simp
  finally show ?thesis using True one by (simp add: Let_def)
qed

text \<open>At a size that no image has, the factor is not the quotient with the fraction cut off.\<close>

lemma subsample_scale_rounded:
  "subsample_scale (2 ^ 62 - 1) 1 = Inr (Some (2 ^ 53)) \<and>
   (2 ^ 62 - 1) div 512 = (2 ^ 53 - 1 :: int)"
proof
  have one: "py_truediv_512 1 = Inr (1 / 512)"
    using py_truediv_512_exact [of 1] by simp
  have big: "max_w < 2 ^ 62 - 1" by (simp add: max_w_def)
  have m: "max (2 ^ 53) (1 / 512 :: rat) = 2 ^ 53" by simp
  have t: "py_int_trunc (2 ^ 53) = 2 ^ 53"
    using floor_of_int [of "2 ^ 53", where ?'a = rat] by (simp add: py_int_trunc_def)
  have "subsample_scale (2 ^ 62 - 1) 1 =
      Inr (Some (let scale = py_int_trunc (max (2 ^ 53) (1 / 512))
                 in if scale < 1 then 1 else scale))"
    unfolding subsample_scale_def py_truediv_512_rounded one using big by (simp add: Let_def)
  then show "subsample_scale (2 ^ 62 - 1) 1 = Inr (Some (2 ^ 53))"
    unfolding m t by (simp add: Let_def)
  show "(2 ^ 62 - 1) div 512 = (2 ^ 53 - 1 :: int)" by simp
qed

text \<open>
  An image with no side longer than 512 is shown as it is, and a factor is at least 1:
  an image is never enlarged.
\<close>

lemma preview_size_not_larger:
  assumes w: "0 \<le> w" "w < 2 ^ 53" and h: "0 \<le> h" "h < 2 ^ 53"
  shows "\<exists>pw ph. preview_size w h = Inr (pw, ph) \<and> pw \<le> w \<and> ph \<le> h"
proof (cases "512 < w \<or> 512 < h")
  case False
  with w h show ?thesis by (simp add: preview_size_def subsample_scale_floor)
next
  case True
  define k where "k = max w h div 512"
  from True have "512 < max w h" by auto
  then have k: "1 \<le> k" unfolding k_def by linarith
  have le: "subsample_size n k \<le> n" if "0 \<le> n" for n
    using k that by (intro subsample_size_le) (simp_all add: mult_le_cancel_left1)
  from True w h have "preview_size w h = Inr (subsample_size w k, subsample_size h k)"
    by (simp add: preview_size_def subsample_scale_floor k_def)
  with le [OF w(1)] le [OF h(1)] show ?thesis by simp
qed

text \<open>
  Every image whose longer side is between 513 and 1023 gets the factor 1 and is shown
  at its full size, which is larger than the bound of 512 by 512 that the code names.
\<close>

lemma subsample_scale_no_shrink:
  assumes "0 \<le> w" "0 \<le> h" "512 < max w h" "max w h < 1024"
  shows "subsample_scale w h = Inr (Some 1) \<and> preview_size w h = Inr (w, h)"
proof -
  from assms have w: "\<bar>w\<bar> < 2 ^ 53" and h: "\<bar>h\<bar> < 2 ^ 53" by simp_all
  from assms have big: "512 < w \<or> 512 < h" by auto
  define m where "m = max w h"
  from assms have "512 < m" "m < 1024" by (simp_all add: m_def)
  then have "m div 512 = 1" by presburger
  then have "max w h div 512 = 1" by (simp only: m_def)
  with big have s: "subsample_scale w h = Inr (Some 1)"
    by (simp add: subsample_scale_floor [OF w h])
  then show ?thesis by (simp add: preview_size_def subsample_size_def)
qed

text \<open>
  With the factor of the specification, the ceiling of the quotient, no side of the
  subsampled image is longer than 512.
\<close>

lemma spec_downscale_factor_fits:
  assumes "0 \<le> w" "0 \<le> h"
  shows "subsample_size w (spec_downscale_factor w h) \<le> 512 \<and>
         subsample_size h (spec_downscale_factor w h) \<le> 512"
proof -
  define k where "k = spec_downscale_factor w h"
  have k1: "1 \<le> k" by (simp add: k_def spec_downscale_factor_def)
  have "(of_int (max w h) / 512 :: rat) \<le> of_int \<lceil>of_int (max w h) / 512 :: rat\<rceil>"
    by (rule le_of_int_ceiling)
  also have "\<lceil>of_int (max w h) / 512 :: rat\<rceil> \<le> k"
    by (simp add: k_def spec_downscale_factor_def max_quotients)
  finally have "(of_int (max w h) :: rat) \<le> 512 * of_int k"
    by (simp add: of_int_le_iff)
  then have "(of_int (max w h) :: rat) \<le> of_int (512 * k)" by simp
  then have m: "max w h \<le> 512 * k" by (simp only: of_int_le_iff)
  from m have "w \<le> 512 * k" "h \<le> 512 * k" by simp_all
  with k1 have "subsample_size w k \<le> 512" "subsample_size h k \<le> 512"
    by (simp_all add: subsample_size_le)
  then show ?thesis by (simp add: k_def)
qed

text \<open>
  Claim C2 does not hold of the code. Lines 514 to 519 name the bound \<^verbatim>\<open>max_w, max_h\<close>
  and subsample an image that exceeds it, but \<^verbatim>\<open>int(scale)\<close> cuts the fraction of the
  quotient off where the claim rounds it up. An image of 600 by 600 gets the factor 1
  where the claim has 2, and is shown at 600 by 600, larger than the bound; an image of
  1500 by 700 gets the factor 2 where the claim has 3, and is shown 750 wide. The two
  factors agree where 512 divides the longer side, as for 1024 by 2048.
\<close>

theorem subsample_scale_truncates_quotient:
  "subsample_scale 600 600 = Inr (Some 1) \<and> spec_downscale_factor 600 600 = 2 \<and>
   preview_size 600 600 = Inr (600, 600) \<and> max_w < 600 \<and> max_h < 600 \<and>
   subsample_scale 1500 700 = Inr (Some 2) \<and> spec_downscale_factor 1500 700 = 3 \<and>
   preview_size 1500 700 = Inr (750, 350) \<and> max_w < 750 \<and>
   subsample_scale 1024 2048 = Inr (Some 4) \<and> spec_downscale_factor 1024 2048 = 4"
proof -
  have s1: "subsample_scale 600 600 = Inr (Some 1)" by (simp add: subsample_scale_floor)
  have s2: "subsample_scale 1500 700 = Inr (Some 2)" by (simp add: subsample_scale_floor)
  have s3: "subsample_scale 1024 2048 = Inr (Some 4)" by (simp add: subsample_scale_floor)
  have c1: "\<lceil>75 / 64 :: rat\<rceil> = 2" by (rule ceiling_unique) simp_all
  have c2: "\<lceil>375 / 128 :: rat\<rceil> = 3" by (rule ceiling_unique) simp_all
  have f1: "spec_downscale_factor 600 600 = 2" using c1 by (simp add: spec_downscale_factor_def)
  have f2: "spec_downscale_factor 1500 700 = 3"
    using c2 by (simp add: spec_downscale_factor_def)
  have f3: "spec_downscale_factor 1024 2048 = 4" by (simp add: spec_downscale_factor_def)
  have p1: "preview_size 600 600 = Inr (600, 600)"
    by (simp add: preview_size_def s1 subsample_size_def)
  have p2: "preview_size 1500 700 = Inr (750, 350)"
    by (simp add: preview_size_def s2 subsample_size_def)
  have b: "max_w < 600" "max_h < 600" "max_w < 750" by (simp_all add: max_w_def max_h_def)
  from s1 s2 s3 f1 f2 f3 p1 p2 b show ?thesis by blast
qed

end
